theory Spec2Isabelle
  imports Complex_Main
begin

section \<open>Audio feature extraction (src/audio.py)\<close>

text \<open>
  Tensors of floats are modelled as (nested) lists of reals: every arithmetic
  operation is exact, so statements about the code below are statements about
  the real-number reading of the program.  Python exceptions are values of
  type \<open>error\<close>; a function that can raise returns \<open>error + 'a\<close>.
\<close>

datatype error =
    NotImplementedError
  | ValueError
  | NameError string
  | ZeroDivisionError
  | RuntimeError

subsection \<open>Module constants (lines 12-13)\<close>

definition GRIFFIN_LIM_ITER :: nat where
  "GRIFFIN_LIM_ITER = 50"

definition SAMPLE_RATE :: nat where
  "SAMPLE_RATE = 16000"

subsection \<open>Elementwise helpers of torch\<close>

text \<open>\<open>torch.clamp(x, min=lo)\<close> and \<open>torch.clamp(x, min=lo, max=hi)\<close> on one entry.\<close>

definition clamp_min :: "real \<Rightarrow> real \<Rightarrow> real" where
  "clamp_min x lo = max x lo"

definition clamp :: "real \<Rightarrow> real \<Rightarrow> real \<Rightarrow> real" where
  "clamp x lo hi = min (max x lo) hi"

subsection \<open>CMVN (lines 15-38)\<close>

record CMVN =
  mode :: string
  dim :: int
  eps :: real

text \<open>\<open>CMVN.__init__\<close>: any mode but \<open>"global"\<close> raises before the fields are set.\<close>

definition CMVN_init :: "string \<Rightarrow> int \<Rightarrow> real \<Rightarrow> error + CMVN" where
  "CMVN_init m d e =
     (if m \<noteq> ''global'' then Inl NotImplementedError
      else Inr \<lparr>mode = m, dim = d, eps = e\<rparr>)"

definition mean :: "real list \<Rightarrow> real" where
  "mean xs = sum_list xs / real (length xs)"

text \<open>\<open>Tensor.std\<close> uses Bessel's correction by default.\<close>

definition std :: "real list \<Rightarrow> real" where
  "std xs = sqrt (sum_list (map (\<lambda>v. (v - mean xs)\<^sup>2) xs) / (real (length xs) - 1))"

text \<open>
  \<open>CMVN.forward\<close>.  The input tensor is given as the list of its fibres along
  \<open>self.dim\<close>; \<open>mean\<close> and \<open>std\<close> with \<open>keepdim=True\<close> act on each fibre on its
  own.  The method has a single \<open>if\<close> without \<open>else\<close>: for another mode it falls
  through and returns Python's \<open>None\<close>.  It contains no \<open>raise\<close>.
\<close>

definition CMVN_forward :: "CMVN \<Rightarrow> real list list \<Rightarrow> error + real list list option" where
  "CMVN_forward self x =
     (if mode self = ''global''
      then Inr (Some (map (\<lambda>fibre. map (\<lambda>v. (v - mean fibre) / (eps self + std fibre)) fibre) x))
      else Inr None)"

subsection \<open>ExtractAudioFeature (lines 193-350)\<close>

text \<open>
  The attributes that the methods modelled below read.  The sample rate, the FFT
  size, the window and the hop length only configure the library transforms,
  which are function parameters here.
\<close>

record ExtractAudioFeature =
  ref_level_db :: real
  min_level_db :: real
  preemphasis_coeff :: real
  fb :: "real list list"

text \<open>\<open>_preemphasis\<close> on one channel: \<open>cat([w[:1], w[1:] - c * w[:-1]])\<close>.\<close>

definition preemphasis :: "ExtractAudioFeature \<Rightarrow> real list \<Rightarrow> real list" where
  "preemphasis self waveform =
     take 1 waveform @
     map2 (\<lambda>a b. a - preemphasis_coeff self * b) (drop 1 waveform) (butlast waveform)"

text \<open>
  \<open>self.to_specgram\<close> is \<open>torchaudio.transforms.Spectrogram\<close> built with
  \<open>power=2\<close> (lines 204-211).  The short-time transform itself is library code
  and is a parameter \<open>stft\<close> (frequency bins by frames of complex values); with
  \<open>power=2\<close> the transform returns, per bin, the sum of the squared real and
  imaginary parts.
\<close>

definition to_specgram :: "(real list \<Rightarrow> complex list list) \<Rightarrow> real list \<Rightarrow> real list list" where
  "to_specgram stft waveform = map (map (\<lambda>z. (Re z)\<^sup>2 + (Im z)\<^sup>2)) (stft waveform)"

text \<open>Line 233: \<open>specgram = self.to_specgram(waveform).sqrt()\<close>, after line 231.\<close>

definition forward_specgram ::
  "ExtractAudioFeature \<Rightarrow> (real list \<Rightarrow> complex list list) \<Rightarrow> real list \<Rightarrow> real list list" where
  "forward_specgram self stft waveform =
     map (map sqrt) (to_specgram stft (preemphasis self waveform))"

text \<open>
  \<open>self.to_melspecgram\<close>: the mel basis (mel bands by frequency bins) contracted
  with the spectrogram over the frequency axis.
\<close>

definition to_melspecgram :: "real list list \<Rightarrow> real list list \<Rightarrow> real list list" where
  "to_melspecgram basis specgram =
     map (\<lambda>band. map (\<lambda>frame. sum_list (map2 (*) band frame)) (transpose specgram)) basis"

definition amp_to_db :: "real \<Rightarrow> real \<Rightarrow> real" where
  "amp_to_db x minimum = 20 * log 10 (clamp_min x minimum)"

definition db_to_amp :: "real \<Rightarrow> real" where
  "db_to_amp x = 10 powr (0.05 * x)"

definition normalize_feat :: "ExtractAudioFeature \<Rightarrow> real \<Rightarrow> real" where
  "normalize_feat self feat = clamp ((feat - min_level_db self) / - min_level_db self) 0 1"

definition denormalize :: "ExtractAudioFeature \<Rightarrow> real \<Rightarrow> real" where
  "denormalize self feat = min_level_db self + clamp feat 0 1 * - min_level_db self"

text \<open>
  \<open>forward\<close> (lines 227-240) for the selected channel: the mel branch, which is the
  value returned, and the linear branch of lines 235-236, which is computed and
  dropped.
\<close>

definition forward ::
  "ExtractAudioFeature \<Rightarrow> (real list \<Rightarrow> complex list list) \<Rightarrow> real list \<Rightarrow> real list list" where
  "forward self stft waveform =
     (let specgram = forward_specgram self stft waveform;
          melspecgram = to_melspecgram (fb self) specgram;
          melspecgram = map (map (\<lambda>x. amp_to_db x (1 / 10 ^ 5) - ref_level_db self)) melspecgram;
          melspecgram = map (map (normalize_feat self)) melspecgram
      in melspecgram)"

definition forward_linear_branch ::
  "ExtractAudioFeature \<Rightarrow> (real list \<Rightarrow> complex list list) \<Rightarrow> real list \<Rightarrow> real list list" where
  "forward_linear_branch self stft waveform =
     (let specgram = forward_specgram self stft waveform;
          specgram = map (map (\<lambda>x. amp_to_db x (1 / 10 ^ 5) - ref_level_db self)) specgram;
          specgram = map (map (normalize_feat self)) specgram
      in specgram)"

subsection \<open>Griffin-Lim (lines 279-298, 316-321)\<close>

text \<open>\<open>_to_complex\<close>: the pair (real, imag) stacked along a last axis.\<close>

definition to_complex :: "real list list \<Rightarrow> real list list \<Rightarrow> (real \<times> real) list list" where
  "to_complex magnitude phase =
     map2 (map2 (\<lambda>m p. (m * cos p, m * sin p))) magnitude phase"

text \<open>The \<open>range(30)\<close> of line 293.\<close>

definition griffin_lim_range :: "nat list" where
  "griffin_lim_range = [0..<30]"

text \<open>
  The loop body, lines 294-297.  \<open>torch.stft\<close>, \<open>torchaudio.functional.istft\<close> and
  \<open>torchaudio.functional.angle\<close> are library code and are parameters.
\<close>

definition griffin_lim_body ::
  "(real list \<Rightarrow> (real \<times> real) list list) \<Rightarrow> ((real \<times> real) list list \<Rightarrow> real list) \<Rightarrow>
   ((real \<times> real) list list \<Rightarrow> real list list) \<Rightarrow> real list list \<Rightarrow> real list \<Rightarrow> real list" where
  "griffin_lim_body stft istft angle magnitude x =
     (let y = stft x;
          phases = angle y;
          y = to_complex magnitude phases
      in istft y)"

text \<open>
  \<open>_griffin_lim\<close>.  \<open>phases\<close> is the matrix of initial phases drawn on lines
  286-288.
\<close>

definition griffin_lim ::
  "(real list \<Rightarrow> (real \<times> real) list list) \<Rightarrow> ((real \<times> real) list list \<Rightarrow> real list) \<Rightarrow>
   ((real \<times> real) list list \<Rightarrow> real list list) \<Rightarrow> real list list \<Rightarrow> real list list \<Rightarrow> real list" where
  "griffin_lim stft istft angle phases specgram =
     (let magnitude = map (map abs) specgram;
          y = to_complex magnitude phases;
          x = istft y
      in fold (\<lambda>_ x. griffin_lim_body stft istft angle magnitude x) griffin_lim_range x)"

subsection \<open>Frequency scale (lines 667-773)\<close>

definition hz_to_mel :: "real \<Rightarrow> bool \<Rightarrow> real" where
  "hz_to_mel frequencies htk =
     (if htk then 2595 * log 10 (1 + frequencies / 700)
      else
        let f_min = 0;
            f_sp = 200 / 3;
            mels = (frequencies - f_min) / f_sp;
            min_log_hz = 1000;
            min_log_mel = (min_log_hz - f_min) / f_sp;
            logstep = ln (64 / 10) / 27
        in if frequencies \<ge> min_log_hz
           then min_log_mel + ln (frequencies / min_log_hz) / logstep
           else mels)"

definition mel_to_hz :: "real \<Rightarrow> bool \<Rightarrow> real" where
  "mel_to_hz mels htk =
     (if htk then 700 * (10 powr (mels / 2595) - 1)
      else
        let f_min = 0;
            f_sp = 200 / 3;
            freqs = f_min + f_sp * mels;
            min_log_hz = 1000;
            min_log_mel = (min_log_hz - f_min) / f_sp;
            logstep = ln (64 / 10) / 27
        in if mels \<ge> min_log_mel
           then min_log_hz * exp (logstep * (mels - min_log_mel))
           else freqs)"

subsection \<open>Mel filterbank (lines 431-664)\<close>

text \<open>
  \<open>np.linspace(start, stop, num)\<close> with the endpoint included, for a count that
  is not negative (numpy raises ValueError for a negative one, which the callers
  below check).  With \<open>num = 1\<close> numpy multiplies the index by the whole
  interval instead of a step.
\<close>

definition linspace :: "real \<Rightarrow> real \<Rightarrow> nat \<Rightarrow> real list" where
  "linspace start stop num =
     (let divisor = int num - 1;
          delta = stop - start
      in map (\<lambda>k. if divisor > 0 then real k * (delta / real_of_int divisor) + start
                  else real k * delta + start) [0..<num])"

definition fft_frequencies :: "real \<Rightarrow> int \<Rightarrow> error + real list" where
  "fft_frequencies sr n_fft =
     (if 1 + n_fft div 2 < 0 then Inl ValueError
      else Inr (linspace 0 (sr / 2) (nat (1 + n_fft div 2))))"

definition mel_frequencies :: "int \<Rightarrow> real \<Rightarrow> real \<Rightarrow> bool \<Rightarrow> error + real list" where
  "mel_frequencies n_mels fmin fmax htk =
     (let min_mel = hz_to_mel fmin htk;
          max_mel = hz_to_mel fmax htk
      in if n_mels < 0 then Inl ValueError
         else Inr (map (\<lambda>m. mel_to_hz m htk) (linspace min_mel max_mel (nat n_mels))))"

text \<open>The argument \<open>norm\<close>: \<open>None\<close>, \<open>1\<close>, \<open>np.inf\<close>, or anything else.\<close>

datatype norm_kind = NormNone | NormOne | NormInf | NormOther

text \<open>\<open>np.diff\<close> and \<open>np.subtract.outer\<close>.\<close>

definition diff :: "real list \<Rightarrow> real list" where
  "diff xs = map2 (\<lambda>b a. b - a) (drop 1 xs) xs"

definition subtract_outer :: "real list \<Rightarrow> real list \<Rightarrow> real list list" where
  "subtract_outer xs ys = map (\<lambda>x. map (\<lambda>y. x - y) ys) xs"

text \<open>
  The triangular weights of lines 521-530, before any normalisation: row \<open>i\<close> is
  \<open>maximum(0, minimum(lower, upper))\<close>.
\<close>

definition mel_weights :: "real list \<Rightarrow> real list \<Rightarrow> nat \<Rightarrow> real list list" where
  "mel_weights mel_f fftfreqs n_mels =
     (let fdiff = diff mel_f;
          ramps = subtract_outer mel_f fftfreqs
      in map (\<lambda>i. let lower = map (\<lambda>r. - r / fdiff ! i) (ramps ! i);
                      upper = map (\<lambda>r. r / fdiff ! (i + 1)) (ramps ! (i + 2))
                  in map2 (\<lambda>l u. max 0 (min l u)) lower upper) [0..<n_mels])"

text \<open>Lines 532-535: \<open>enorm = 2.0 / (mel_f[2:n_mels+2] - mel_f[:n_mels])\<close>.\<close>

definition enorm :: "real list \<Rightarrow> nat \<Rightarrow> real list" where
  "enorm mel_f n_mels =
     map2 (\<lambda>hi lo. 2 / (hi - lo)) (take n_mels (drop 2 mel_f)) (take n_mels mel_f)"

text \<open>
  \<open>create_mel_filterbank\<close>.  The order of the failures is the order of the
  source: the test of \<open>norm\<close> (the name \<open>ParameterError\<close> is bound nowhere in the
  module, so the \<open>raise\<close> is a NameError), \<open>np.zeros\<close> with a negative dimension
  (ValueError), \<open>weights.max(axis=1)\<close> over an axis of length zero (ValueError),
  and the call of \<open>warnings.warn\<close> (the module does not import \<open>warnings\<close>, so
  reaching it is a NameError).  The function contains no other test of its
  arguments.  A division by zero of numpy gives inf or nan, not an exception;
  over the reals it has the value HOL gives it, and the statements below are
  about inputs where no divisor is zero.
\<close>

definition create_mel_filterbank ::
  "real \<Rightarrow> int \<Rightarrow> int \<Rightarrow> real \<Rightarrow> real option \<Rightarrow> bool \<Rightarrow> norm_kind \<Rightarrow> error + real list list" where
  "create_mel_filterbank sr n_fft n_mels fmin fmax_arg htk norm_arg =
     (let fmax = (case fmax_arg of None \<Rightarrow> sr / 2 | Some v \<Rightarrow> v)
      in if norm_arg = NormOther then Inl (NameError ''ParameterError'')
         else if n_mels < 0 \<or> 1 + n_fft div 2 < 0 then Inl ValueError
         else
           (case fft_frequencies sr n_fft of
              Inl e \<Rightarrow> Inl e
            | Inr fftfreqs \<Rightarrow>
               (case mel_frequencies (n_mels + 2) fmin fmax htk of
                  Inl e \<Rightarrow> Inl e
                | Inr mel_f \<Rightarrow>
                   (let weights = mel_weights mel_f fftfreqs (nat n_mels);
                        weights =
                          (if norm_arg = NormOne
                           then map2 (\<lambda>e row. map (\<lambda>w. w * e) row) (enorm mel_f (nat n_mels)) weights
                           else weights)
                    in if fftfreqs = [] then Inl ValueError
                       else if \<not> list_all (\<lambda>(m, row). m = 0 \<or> Max (set row) > 0)
                                   (zip (take (nat n_mels) mel_f) weights)
                       then Inl (NameError ''warnings'')
                       else Inr weights))))"

subsection \<open>Delta (lines 41-97)\<close>

text \<open>
  One round of the outer loop of \<open>_create_filters\<close> (lines 77-86): the kernel
  \<open>curr\<close> built from the previous kernel.  Every index written or read is in
  range.  The list comprehension divides each entry by \<open>normalizer\<close>, a Python
  float: a zero normalizer raises ZeroDivisionError as soon as there is an entry.
\<close>

definition next_scale :: "int \<Rightarrow> real list \<Rightarrow> error + real list" where
  "next_scale window_size prev =
     (let prev_offset = (int (length prev) - 1) div 2;
          curr_offset = prev_offset + window_size;
          curr = replicate (nat (int (length prev) + 2 * window_size)) 0;
          (normalizer, curr) =
            fold (\<lambda>j (normalizer, curr).
                    (normalizer + real_of_int (j * j),
                     fold (\<lambda>k curr.
                             curr[nat (j + k + curr_offset) :=
                                    curr ! nat (j + k + curr_offset)
                                      + real_of_int j * prev ! nat (k + prev_offset)])
                          [- prev_offset..prev_offset] curr))
                 [- window_size..window_size] (0, curr)
      in if curr \<noteq> [] \<and> normalizer = 0 then Inl ZeroDivisionError
         else Inr (map (\<lambda>x. x / normalizer) curr))"

text \<open>The outer loop, lines 75-87.\<close>

definition create_scales :: "int \<Rightarrow> int \<Rightarrow> error + real list list" where
  "create_scales order window_size =
     fold (\<lambda>i acc. case acc of
                      Inl e \<Rightarrow> Inl e
                    | Inr scales \<Rightarrow>
                       (case next_scale window_size (scales ! (i - 1)) of
                          Inl e \<Rightarrow> Inl e
                        | Inr new_scale \<Rightarrow> Inr (scales @ [new_scale])))
          [1..<nat order + 1] (Inr [[1]])"

text \<open>
  Lines 89-94: every kernel but the last is padded with zeros on both sides;
  \<open>torch.tensor\<close> raises ValueError when the rows differ in length.
\<close>

definition create_filters :: "int \<Rightarrow> int \<Rightarrow> error + real list list" where
  "create_filters order window_size =
     (case create_scales order window_size of
        Inl e \<Rightarrow> Inl e
      | Inr scales \<Rightarrow>
         (let max_len = length (last scales);
              scales = map (\<lambda>scale.
                              let padding = nat ((int max_len - int (length scale)) div 2)
                              in replicate padding 0 @ scale @ replicate padding 0)
                           (butlast scales) @ [last scales]
          in if \<forall>scale \<in> set scales. length scale = max_len then Inr scales
             else Inl ValueError))"

text \<open>
  The attributes that \<open>forward\<close> reads, and \<open>Delta.__init__\<close> (lines 45-58) with
  the padding \<open>(0, (filters.shape[-1] - 1) // 2)\<close>.
\<close>

record Delta =
  batch :: bool
  filters :: "real list list"
  padding :: "nat \<times> nat"

definition Delta_init :: "int \<Rightarrow> int \<Rightarrow> bool \<Rightarrow> error + Delta" where
  "Delta_init order window_size batch_arg =
     (case create_filters order window_size of
        Inl e \<Rightarrow> Inl e
      | Inr kernels \<Rightarrow>
         Inr \<lparr>batch = batch_arg, filters = kernels,
              padding = (0, nat ((int (length (last kernels)) - 1) div 2))\<rparr>)"

text \<open>
  \<open>F.conv2d\<close> for a weight of shape (kernels, 1, 1, L), stride 1 and padding
  \<open>(0, p)\<close>, on one image of one channel: a cross-correlation along the last axis
  of the zero-padded rows, each row on its own.  torch refuses a kernel larger
  than the padded input.
\<close>

definition conv1d :: "real list \<Rightarrow> nat \<Rightarrow> real list \<Rightarrow> real list" where
  "conv1d taps p row =
     (let padded = replicate p 0 @ row @ replicate p 0
      in map (\<lambda>t. sum_list (map2 (*) taps (drop t padded)))
             [0..<length padded + 1 - length taps])"

definition conv2d :: "real list list \<Rightarrow> real list list \<Rightarrow> nat \<Rightarrow> error + real list list list" where
  "conv2d x weight p =
     (case x of
        [] \<Rightarrow> Inl RuntimeError
      | row # _ \<Rightarrow>
         if length row + 2 * p < length (last weight) then Inl RuntimeError
         else Inr (map (\<lambda>taps. map (conv1d taps p) x) weight))"

text \<open>
  \<open>Delta.forward\<close>.  The input is [channel, feature_dim, time] without batching
  (one channel, or conv2d refuses it) and [batch, feature_dim, time] with it;
  the last axis, along which the kernels slide, is time (lines 20-21, 112-116,
  233-234).
\<close>

datatype delta_out =
    Unbatched "real list list list"
  | Batched "real list list list list"

fun collect :: "(error + 'a) list \<Rightarrow> error + 'a list" where
  "collect [] = Inr []"
| "collect (Inl e # _) = Inl e"
| "collect (Inr v # rest) = (case collect rest of Inl e \<Rightarrow> Inl e | Inr vs \<Rightarrow> Inr (v # vs))"

definition Delta_forward :: "Delta \<Rightarrow> real list list list \<Rightarrow> error + delta_out" where
  "Delta_forward self x =
     (if batch self
      then (case collect (map (\<lambda>item. conv2d item (filters self) (snd (padding self))) x) of
              Inl e \<Rightarrow> Inl e
            | Inr out \<Rightarrow> Inr (Batched out))
      else (case x of
              [channel] \<Rightarrow>
                (case conv2d channel (filters self) (snd (padding self)) of
                   Inl e \<Rightarrow> Inl e
                 | Inr out \<Rightarrow> Inr (Unbatched out))
            | _ \<Rightarrow> Inl RuntimeError))"

text \<open>
  The kernels in the declarative reading of the construction, for comparison
  with \<open>_create_filters\<close>: the order-0 kernel is [1]; the next kernel has
  \<open>2 * window_size\<close> more taps than the previous one, and its tap at position
  \<open>m\<close> is the sum of \<open>j * prev[k]\<close> over all offsets \<open>j\<close> in
  \<open>[-window_size, window_size]\<close> and all taps \<open>k\<close> of the previous kernel with
  \<open>j + k + offset = m\<close>, divided by the sum of \<open>j * j\<close> over the same offsets.
\<close>

definition regression_step :: "int \<Rightarrow> real list \<Rightarrow> real list" where
  "regression_step w prev =
     (let po = (int (length prev) - 1) div 2;
          co = po + w
      in map (\<lambda>m. sum_list (map (\<lambda>j. sum_list (map (\<lambda>k. if j + k + co = int m
                                                         then real_of_int j * prev ! nat (k + po)
                                                         else 0)
                                                 [- po..po]))
                              [- w..w])
                  / sum_list (map (\<lambda>j. real_of_int (j * j)) [- w..w]))
             [0..<length prev + 2 * nat w])"

fun regression_kernel :: "int \<Rightarrow> nat \<Rightarrow> real list" where
  "regression_kernel w 0 = [1]"
| "regression_kernel w (Suc i) = regression_step w (regression_kernel w i)"

section \<open>Properties\<close>

subsection \<open>Helper facts\<close>


lemma clamp_id: "0 \<le> v \<Longrightarrow> v \<le> 1 \<Longrightarrow> clamp v 0 1 = v"
  by (simp add: clamp_def)

lemma logstep_pos: "0 < ln (64 / 10 :: real) / 27"
  by simp

lemma fold_const_funpow: "fold (\<lambda>_. f) [0..<n] x = (f ^^ n) x"
  by (induction n) simp_all

lemma sqrt_re_im_cmod: "(\<lambda>z. sqrt ((Re z)\<^sup>2 + (Im z)\<^sup>2)) = cmod"
  by (rule ext) (simp add: cmod_def)

lemma slaney_roundtrip: "mel_to_hz (hz_to_mel f False) False = f"
proof (cases "1000 \<le> f")
  case True
  then have "0 \<le> ln (f / 1000)" by simp
  then have "0 \<le> ln (f / 1000) / (ln (64 / 10) / 27)"
    using logstep_pos by (intro divide_nonneg_pos) simp_all
  with True show ?thesis
    by (simp add: hz_to_mel_def mel_to_hz_def Let_def)
next
  case False
  then show ?thesis
    by (simp add: hz_to_mel_def mel_to_hz_def Let_def)
qed

lemma htk_roundtrip: "0 \<le> f \<Longrightarrow> mel_to_hz (hz_to_mel f True) True = f"
  by (simp add: hz_to_mel_def mel_to_hz_def powr_log_cancel)

lemma hz_to_mel_slaney_cont: "isCont (\<lambda>f. hz_to_mel f False) 1000"
proof -
  let ?g = "\<lambda>f::real. if 1000 \<le> f then 15 + ln (f / 1000) / (ln (64 / 10) / 27) else f / (200 / 3)"
  have "continuous_on ({1000..} \<union> {..1000}) ?g"
    by (rule continuous_on_cases) (auto intro!: continuous_intros)
  moreover have "{1000..} \<union> {..1000} = (UNIV :: real set)" by auto
  ultimately have cont: "continuous_on UNIV ?g" by (simp only:)
  have eq: "(\<lambda>f. hz_to_mel f False) = ?g"
    by (rule ext) (simp add: hz_to_mel_def Let_def)
  have "isCont ?g 1000"
    using cont by (simp only: continuous_on_eq_continuous_at open_UNIV) simp
  then show ?thesis
    by (simp only: eq)
qed

subsection \<open>Helper facts: frequency scale and linspace\<close>

lemma hz_to_mel_linear: "f < 1000 \<Longrightarrow> hz_to_mel f False = f / (200 / 3)"
  by (simp add: hz_to_mel_def Let_def)

lemma hz_to_mel_log:
  "1000 \<le> f \<Longrightarrow> hz_to_mel f False = 15 + ln (f / 1000) / (ln (64 / 10) / 27)"
  by (simp add: hz_to_mel_def Let_def)

lemma mel_to_hz_linear: "m < 15 \<Longrightarrow> mel_to_hz m False = 200 / 3 * m"
  by (simp add: mel_to_hz_def Let_def)

lemma mel_to_hz_log:
  "15 \<le> m \<Longrightarrow> mel_to_hz m False = 1000 * exp (ln (64 / 10) / 27 * (m - 15))"
  by (simp add: mel_to_hz_def Let_def)

lemma hz_to_mel_strict_mono:
  assumes "0 \<le> f1" and "f1 < f2"
  shows "hz_to_mel f1 htk < hz_to_mel f2 htk"
proof (cases htk)
  case True
  have "log 10 (1 + f1 / 700) < log 10 (1 + f2 / 700)"
    using assms by simp
  with True show ?thesis
    by (simp add: hz_to_mel_def)
next
  case False
  define s :: real where "s = ln (64 / 10) / 27"
  have s: "0 < s" unfolding s_def by (rule logstep_pos)
  consider "f2 < 1000" | "f1 < 1000" "1000 \<le> f2" | "1000 \<le> f1"
    using assms by linarith
  then show ?thesis
  proof cases
    case 1
    then have "f1 < 1000" using assms by simp
    then have "hz_to_mel f1 False = f1 / (200 / 3)" "hz_to_mel f2 False = f2 / (200 / 3)"
      using 1 by (simp_all only: hz_to_mel_linear)
    moreover have "f1 / (200 / 3) < f2 / (200 / 3)" using assms by simp
    ultimately show ?thesis using False by simp
  next
    case 2
    have "0 \<le> ln (f2 / 1000)" using 2 by simp
    then have "0 \<le> ln (f2 / 1000) / s"
      using s by (rule divide_nonneg_pos)
    moreover have "f1 / (200 / 3) < 15" using 2 by simp
    ultimately have lt: "f1 / (200 / 3) < 15 + ln (f2 / 1000) / s" by linarith
    have "hz_to_mel f1 False = f1 / (200 / 3)"
      using 2 by (simp only: hz_to_mel_linear)
    also note lt
    also have "15 + ln (f2 / 1000) / s = hz_to_mel f2 False"
      unfolding s_def using 2 by (simp only: hz_to_mel_log)
    finally show ?thesis using False by simp
  next
    case 3
    then have "ln (f1 / 1000) < ln (f2 / 1000)"
      using assms by simp
    then have "ln (f1 / 1000) / s < ln (f2 / 1000) / s"
      using s by (simp only: divide_strict_right_mono)
    then have "15 + ln (f1 / 1000) / s < 15 + ln (f2 / 1000) / s" by linarith
    moreover have "hz_to_mel f1 False = 15 + ln (f1 / 1000) / s"
      unfolding s_def using 3 by (simp only: hz_to_mel_log)
    moreover have "1000 \<le> f2" using 3 assms by linarith
    then have "hz_to_mel f2 False = 15 + ln (f2 / 1000) / s"
      unfolding s_def by (simp only: hz_to_mel_log)
    ultimately show ?thesis using False by simp
  qed
qed

lemma mel_to_hz_strict_mono:
  assumes "m1 < m2"
  shows "mel_to_hz m1 htk < mel_to_hz m2 htk"
proof (cases htk)
  case True
  have "(10::real) powr (m1 / 2595) < 10 powr (m2 / 2595)"
    using assms by simp
  with True show ?thesis
    by (simp add: mel_to_hz_def)
next
  case False
  define s :: real where "s = ln (64 / 10) / 27"
  have s: "0 < s" unfolding s_def by (rule logstep_pos)
  consider "m2 < 15" | "m1 < 15" "15 \<le> m2" | "15 \<le> m1"
    using assms by linarith
  then show ?thesis
  proof cases
    case 1
    then have "m1 < 15" using assms by simp
    then have "mel_to_hz m1 False = 200 / 3 * m1" "mel_to_hz m2 False = 200 / 3 * m2"
      using 1 by (simp_all only: mel_to_hz_linear)
    moreover have "200 / 3 * m1 < 200 / 3 * m2" using assms by simp
    ultimately show ?thesis using False by simp
  next
    case 2
    have "0 \<le> s * (m2 - 15)"
      using 2 s by (intro mult_nonneg_nonneg) simp_all
    then have "1 \<le> exp (s * (m2 - 15))" by simp
    then have "1000 \<le> 1000 * exp (s * (m2 - 15))" by simp
    moreover have "200 / 3 * m1 < 1000" using 2 by simp
    ultimately have "200 / 3 * m1 < 1000 * exp (s * (m2 - 15))" by linarith
    moreover have "mel_to_hz m1 False = 200 / 3 * m1"
      using 2 by (simp only: mel_to_hz_linear)
    moreover have "mel_to_hz m2 False = 1000 * exp (s * (m2 - 15))"
      unfolding s_def using 2 by (simp only: mel_to_hz_log)
    ultimately show ?thesis using False by simp
  next
    case 3
    have "m1 - 15 < m2 - 15" using assms by simp
    then have "s * (m1 - 15) < s * (m2 - 15)"
      using s by (simp only: mult_strict_left_mono)
    then have "exp (s * (m1 - 15)) < exp (s * (m2 - 15))" by simp
    then have "1000 * exp (s * (m1 - 15)) < 1000 * exp (s * (m2 - 15))" by simp
    moreover have "mel_to_hz m1 False = 1000 * exp (s * (m1 - 15))"
      unfolding s_def using 3 by (simp only: mel_to_hz_log)
    moreover have "15 \<le> m2" using 3 assms by linarith
    then have "mel_to_hz m2 False = 1000 * exp (s * (m2 - 15))"
      unfolding s_def by (simp only: mel_to_hz_log)
    ultimately show ?thesis using False by simp
  qed
qed

lemma length_linspace: "length (linspace a b n) = n"
  by (simp add: linspace_def Let_def)

lemma linspace_nth:
  assumes "k < n" and "2 \<le> n"
  shows "linspace a b n ! k = real k * ((b - a) / real (n - 1)) + a"
  using assms by (simp add: linspace_def Let_def of_nat_diff)

lemma linspace_strict_mono:
  assumes "a < b" and "j < k" and "k < n"
  shows "linspace a b n ! j < linspace a b n ! k"
proof -
  define c where "c = (b - a) / real (n - 1)"
  have n2: "2 \<le> n" using assms by simp
  have c: "0 < c"
    unfolding c_def using assms n2 by simp
  have "real j < real k" using assms(2) by simp
  then have "real j * c < real k * c"
    using c by (simp only: mult_strict_right_mono)
  then have "real j * c + a < real k * c + a" by linarith
  moreover have "linspace a b n ! j = real j * c + a" "linspace a b n ! k = real k * c + a"
    unfolding c_def using assms n2 by (simp_all only: linspace_nth) 
  ultimately show ?thesis by simp
qed

lemma linspace_first: "2 \<le> n \<Longrightarrow> linspace a b n ! 0 = a"
  by (simp add: linspace_nth)

lemma linspace_last: "2 \<le> n \<Longrightarrow> linspace a b n ! (n - 1) = b"
  by (simp add: linspace_nth)

subsection \<open>Helper facts: mel filterbank\<close>

lemma length_diff: "length (diff xs) = length xs - 1"
  by (simp add: diff_def)

lemma diff_nth: "Suc i < length xs \<Longrightarrow> diff xs ! i = xs ! Suc i - xs ! i"
  by (simp add: diff_def)

lemma subtract_outer_nth:
  "i < length xs \<Longrightarrow> subtract_outer xs ys ! i = map (\<lambda>y. xs ! i - y) ys"
  by (simp add: subtract_outer_def)

lemma map2_same: "map2 f (map g xs) (map h xs) = map (\<lambda>x. f (g x) (h x)) xs"
  by (induction xs) simp_all

lemma neg_diff_divide: "- ((a - x) / d) = (x - a) / (d::real)"
  by (simp add: minus_divide_left)

lemma length_mel_weights: "length (mel_weights mel_f fftfreqs n) = n"
  by (simp add: mel_weights_def Let_def)

lemma mel_weights_nth:
  assumes "i < n" and "i + 2 < length mel_f"
  shows "mel_weights mel_f fftfreqs n ! i =
           map (\<lambda>y. max 0 (min ((y - mel_f ! i) / (mel_f ! (i + 1) - mel_f ! i))
                               ((mel_f ! (i + 2) - y) / (mel_f ! (i + 2) - mel_f ! (i + 1)))))
               fftfreqs"
  using assms
  by (simp add: mel_weights_def Let_def subtract_outer_nth diff_nth map2_same neg_diff_divide)

lemma triangle_bounds:
  fixes l c r y :: real
  assumes "l < c" and "c < r"
  shows "0 \<le> max 0 (min ((y - l) / (c - l)) ((r - y) / (r - c)))"
    and "max 0 (min ((y - l) / (c - l)) ((r - y) / (r - c))) \<le> 1"
proof -
  show "0 \<le> max 0 (min ((y - l) / (c - l)) ((r - y) / (r - c)))" by simp
  have "min ((y - l) / (c - l)) ((r - y) / (r - c)) \<le> 1"
  proof (cases "y \<le> c")
    case True
    then have "(y - l) / (c - l) \<le> 1" using assms by simp
    then show ?thesis by (simp add: min_le_iff_disj)
  next
    case False
    then have "(r - y) / (r - c) \<le> 1" using assms by simp
    then show ?thesis by (simp add: min_le_iff_disj)
  qed
  then show "max 0 (min ((y - l) / (c - l)) ((r - y) / (r - c))) \<le> 1" by simp
qed

lemma length_enorm: "n + 2 \<le> length mel_f \<Longrightarrow> length (enorm mel_f n) = n"
  by (simp add: enorm_def)

lemma enorm_nth:
  "i < n \<Longrightarrow> n + 2 \<le> length mel_f \<Longrightarrow> enorm mel_f n ! i = 2 / (mel_f ! (i + 2) - mel_f ! i)"
  by (simp add: enorm_def)

lemma mel_frequencies_ok:
  assumes "0 \<le> n"
  shows "mel_frequencies n fmin fmax htk =
           Inr (map (\<lambda>m. mel_to_hz m htk) (linspace (hz_to_mel fmin htk) (hz_to_mel fmax htk) (nat n)))"
  using assms by (simp add: mel_frequencies_def Let_def)

lemma mel_points_strict_mono:
  assumes "0 \<le> fmin" and "fmin < fmax" and "j < k" and "k < n"
  shows "map (\<lambda>m. mel_to_hz m htk) (linspace (hz_to_mel fmin htk) (hz_to_mel fmax htk) n) ! j
       < map (\<lambda>m. mel_to_hz m htk) (linspace (hz_to_mel fmin htk) (hz_to_mel fmax htk) n) ! k"
proof -
  have "hz_to_mel fmin htk < hz_to_mel fmax htk"
    using assms(1,2) by (rule hz_to_mel_strict_mono)
  then have "linspace (hz_to_mel fmin htk) (hz_to_mel fmax htk) n ! j
           < linspace (hz_to_mel fmin htk) (hz_to_mel fmax htk) n ! k"
    using assms(3,4) by (rule linspace_strict_mono)
  then show ?thesis
    using assms(3,4) by (simp add: length_linspace mel_to_hz_strict_mono)
qed

lemma mel_points_ends:
  assumes "0 \<le> fmin" and "0 \<le> fmax" and "2 \<le> n"
  shows "map (\<lambda>m. mel_to_hz m htk) (linspace (hz_to_mel fmin htk) (hz_to_mel fmax htk) n) ! 0 = fmin"
    and "map (\<lambda>m. mel_to_hz m htk) (linspace (hz_to_mel fmin htk) (hz_to_mel fmax htk) n) ! (n - 1) = fmax"
proof -
  have rt: "mel_to_hz (hz_to_mel f htk) htk = f" if "0 \<le> f" for f
    using that by (cases htk) (simp_all add: slaney_roundtrip htk_roundtrip)
  show "map (\<lambda>m. mel_to_hz m htk) (linspace (hz_to_mel fmin htk) (hz_to_mel fmax htk) n) ! 0 = fmin"
    using assms by (simp add: length_linspace linspace_first rt)
  show "map (\<lambda>m. mel_to_hz m htk) (linspace (hz_to_mel fmin htk) (hz_to_mel fmax htk) n) ! (n - 1) = fmax"
    using assms linspace_last [of n "hz_to_mel fmin htk" "hz_to_mel fmax htk"]
    by (simp add: length_linspace rt)
qed

lemma linspace_Nil_iff: "linspace a b n = [] \<longleftrightarrow> n = 0"
  by (simp add: linspace_def Let_def)

lemma create_mel_filterbank_zero_bands:
  assumes "0 \<le> n_fft" and "norm_arg \<noteq> NormOther"
  shows "create_mel_filterbank sr n_fft 0 fmin fmax_arg htk norm_arg = Inr []"
proof -
  have k: "\<not> 1 + n_fft div 2 < 0" "nat (1 + n_fft div 2) \<noteq> 0"
    using assms(1) by (simp_all add: pos_imp_zdiv_nonneg_iff)
  have f: "fft_frequencies sr n_fft = Inr (linspace 0 (sr / 2) (nat (1 + n_fft div 2)))"
    using k by (simp add: fft_frequencies_def)
  have w: "mel_weights mf ff 0 = []" for mf ff
    by (simp add: mel_weights_def Let_def)
  show ?thesis
    using assms(2) k
    by (simp add: create_mel_filterbank_def f mel_frequencies_def w linspace_Nil_iff Let_def)
qed

lemma create_mel_filterbank_negative_bands:
  assumes "n_mels < 0" and "norm_arg \<noteq> NormOther"
  shows "create_mel_filterbank sr n_fft n_mels fmin fmax_arg htk norm_arg = Inl ValueError"
  using assms by (simp add: create_mel_filterbank_def Let_def)

lemma upt_3: "[0..<3] = [0, 1, 2]"
  by code_simp

lemma fb_fft_1200_4: "fft_frequencies 1200 4 = Inr [0, 300, 600]"
  by (simp add: fft_frequencies_def linspace_def Let_def upt_3)

lemma fb_hz_to_mel_vals: "hz_to_mel 600 False = 9" "hz_to_mel 0 False = 0"
  by (simp_all add: hz_to_mel_def Let_def)

lemma fb_mel_to_hz_vals:
  "mel_to_hz 0 False = 0" "mel_to_hz (9 / 2) False = 300" "mel_to_hz 9 False = 600"
  by (simp_all add: mel_to_hz_def Let_def)

lemma fb_mel_1200: "mel_frequencies 3 0 600 False = Inr [0, 300, 600]"
  by (simp add: mel_frequencies_def linspace_def Let_def upt_3 fb_hz_to_mel_vals fb_mel_to_hz_vals)

lemma fb_weights_1200_4: "mel_weights [0, 300, 600] [0, 300, 600] (Suc 0) = [[0, 1, 0]]"
  by (simp add: mel_weights_def diff_def subtract_outer_def Let_def)

lemma fb_enorm_1200: "enorm [0, 300, 600] (Suc 0) = [1 / 300]"
  by (simp add: enorm_def)

lemma fb_1200_4: "create_mel_filterbank 1200 4 1 0 None False NormOne = Inr [[0, 1 / 300, 0]]"
  by (simp add: create_mel_filterbank_def fb_fft_1200_4 fb_mel_1200 fb_weights_1200_4
      fb_enorm_1200 Let_def)

lemma fb_mel_reversed: "mel_frequencies 3 600 0 False = Inr [600, 300, 0]"
  by (simp add: mel_frequencies_def linspace_def Let_def upt_3 fb_hz_to_mel_vals fb_mel_to_hz_vals)

lemma fb_weights_reversed: "mel_weights [600, 300, 0] [0, 300, 600] (Suc 0) = [[0, 1, 0]]"
  by (simp add: mel_weights_def diff_def subtract_outer_def Let_def)

lemma fb_reversed: "create_mel_filterbank 1200 4 1 600 (Some 0) False NormNone = Inr [[0, 1, 0]]"
  by (simp add: create_mel_filterbank_def fb_fft_1200_4 fb_mel_reversed fb_weights_reversed Let_def)

lemma upt_5: "[0..<5] = [0, 1, 2, 3, 4]"
  by code_simp

lemma fb_fft_1200_8: "fft_frequencies 1200 8 = Inr [0, 150, 300, 450, 600]"
  by (simp add: fft_frequencies_def linspace_def Let_def upt_5)

lemma fb_weights_1200_8:
  "mel_weights [0, 300, 600] [0, 150, 300, 450, 600] (Suc 0) = [[0, 1 / 2, 1, 1 / 2, 0]]"
  by (simp add: mel_weights_def diff_def subtract_outer_def Let_def)

lemma fb_1200_8:
  "create_mel_filterbank 1200 8 1 0 None False NormOne = Inr [[0, 1 / 600, 1 / 300, 1 / 600, 0]]"
  by (simp add: create_mel_filterbank_def fb_fft_1200_8 fb_mel_1200 fb_weights_1200_8
      fb_enorm_1200 Let_def)

lemma fb_mel_edges_1200: "linspace (hz_to_mel 0 False) (hz_to_mel 600 False) 3 = [0, 9 / 2, 9]"
  by (simp add: linspace_def Let_def upt_3 fb_hz_to_mel_vals)

subsection \<open>Helper facts: delta kernels and convolution\<close>

lemma fold_update_length:
  "length (fold (\<lambda>k c. c[f k := g k c]) ks c) = length c"
  by (induction ks arbitrary: c) simp_all

lemma fold_pair_split:
  "fold (\<lambda>j (nrm, c). (nrm + h j, G j c)) js (a, c0) = (a + sum_list (map h js), fold G js c0)"
  by (induction js arbitrary: a c0) (simp_all add: add.assoc)

lemma fold_length_invariant:
  assumes "\<And>j c. length (G j c) = length c"
  shows "length (fold G js c0) = length (c0 :: 'a list)"
  using assms by (induction js arbitrary: c0) simp_all

lemma member_le_sum_list_real:
  fixes xs :: "real list"
  assumes "x \<in> set xs" and "\<forall>y \<in> set xs. 0 \<le> y"
  shows "x \<le> sum_list xs"
  using assms
proof (induction xs)
  case Nil
  then show ?case by simp
next
  case (Cons a xs)
  have "0 \<le> sum_list xs"
    using Cons.prems(2) by (intro sum_list_nonneg) simp
  with Cons show ?case by auto
qed

lemma normalizer_pos:
  assumes "1 \<le> w"
  shows "0 < sum_list (map (\<lambda>j. real_of_int (j * j)) [- w..w])"
proof -
  have "real_of_int (w * w) \<in> set (map (\<lambda>j. real_of_int (j * j)) [- w..w])"
    using assms by (auto intro!: image_eqI [of _ _ w])
  moreover have "\<forall>y \<in> set (map (\<lambda>j. real_of_int (j * j)) [- w..w]). 0 \<le> y"
    by auto
  ultimately have "real_of_int (w * w) \<le> sum_list (map (\<lambda>j. real_of_int (j * j)) [- w..w])"
    by (rule member_le_sum_list_real)
  moreover have "0 < real_of_int (w * w)"
    using assms by simp
  ultimately show ?thesis by linarith
qed

lemma pad_eq:
  assumes "i \<le> n"
  shows "nat ((int (1 + 2 * n * v) - int (1 + 2 * i * v)) div 2) = (n - i) * v"
proof -
  have "(n - i) * v + i * v = n * v"
    using assms by (simp flip: add_mult_distrib)
  then have "2 * (n * v) = 2 * (i * v) + 2 * ((n - i) * v)"
    by linarith
  then have e: "int (1 + 2 * n * v) - int (1 + 2 * i * v) = 2 * int ((n - i) * v)"
    by (simp add: mult.assoc)
  have "(2 * int ((n - i) * v)) div 2 = int ((n - i) * v)"
    by (rule nonzero_mult_div_cancel_left) simp
  then show ?thesis
    by (simp only: e nat_int)
qed

lemma sum_list_zip_replicate_zero:
  "sum_list (map2 (*) (replicate k (0::real)) ys) = 0"
proof (induction k arbitrary: ys)
  case 0
  show ?case by simp
next
  case (Suc k)
  then show ?case by (cases ys) simp_all
qed

lemma length_conv1d:
  "length (conv1d taps p row) = length row + 2 * p + 1 - length taps"
  by (simp add: conv1d_def Let_def)

lemma correlate_unit:
  assumes "p < length ys"
  shows "sum_list (map2 (*) (replicate p 0 @ [1] @ replicate p 0) ys) = (ys ! p :: real)"
proof -
  have d: "drop p ys = ys ! p # drop (Suc p) ys"
    using assms by (simp add: Cons_nth_drop_Suc)
  have "zip (replicate p 0 @ [1] @ replicate p 0) ys =
      zip (replicate p (0::real)) (take p ys) @ zip ([1] @ replicate p 0) (drop p ys)"
    by (simp add: zip_append1)
  also have "\<dots> =
      zip (replicate p (0::real)) (take p ys) @ (1, ys ! p) # zip (replicate p 0) (drop (Suc p) ys)"
    by (simp only: d) simp
  finally have "sum_list (map2 (*) (replicate p 0 @ [1] @ replicate p 0) ys) =
      sum_list (map2 (*) (replicate p 0) (take p ys)) + (ys ! p
        + sum_list (map2 (*) (replicate p 0) (drop (Suc p) ys)))"
    by simp
  then show ?thesis
    by (simp add: sum_list_zip_replicate_zero)
qed

lemma conv1d_unit:
  "conv1d (replicate p 0 @ [1] @ replicate p 0) p row = row"
proof -
  let ?padded = "replicate p 0 @ row @ replicate p (0::real)"
  have "map (\<lambda>t. sum_list (map2 (*) (replicate p 0 @ [1] @ replicate p 0) (drop t ?padded)))
          [0..<length row] = map (\<lambda>t. row ! t) [0..<length row]"
  proof (rule map_cong [OF refl])
    fix t assume "t \<in> set [0..<length row]"
    then have t: "t < length row" by simp
    have "sum_list (map2 (*) (replicate p 0 @ [1] @ replicate p 0) (drop t ?padded))
        = drop t ?padded ! p"
      using t by (intro correlate_unit) simp
    also have "\<dots> = ?padded ! (t + p)"
      using t by (subst nth_drop) simp_all
    also have "\<dots> = row ! t"
      using t by (simp add: nth_append)
    finally show "sum_list (map2 (*) (replicate p 0 @ [1] @ replicate p 0) (drop t ?padded)) = row ! t" .
  qed
  then show ?thesis
    by (simp add: conv1d_def Let_def map_nth)
qed

lemma fold_add_nth:
  assumes "m < length c"
  shows "fold (\<lambda>k c. c[f k := c ! f k + g k]) ks c ! m
           = c ! m + sum_list (map (\<lambda>k. if f k = m then g k else (0::real)) ks)"
  using assms
proof (induction ks arbitrary: c)
  case Nil
  show ?case by simp
next
  case (Cons k ks)
  have "m < length (c[f k := c ! f k + g k])"
    using Cons.prems by simp
  then have "fold (\<lambda>k c. c[f k := c ! f k + g k]) ks (c[f k := c ! f k + g k]) ! m
      = c[f k := c ! f k + g k] ! m + sum_list (map (\<lambda>k. if f k = m then g k else 0) ks)"
    by (rule Cons.IH)
  moreover have "c[f k := c ! f k + g k] ! m = c ! m + (if f k = m then g k else 0)"
    using Cons.prems by (cases "f k < length c") (auto simp add: nth_list_update)
  ultimately show ?case by simp
qed

lemma fold_fold_add_nth:
  assumes "m < length c"
  shows "fold (\<lambda>j c. fold (\<lambda>k c. c[f j k := c ! f j k + g j k]) ks c) js c ! m
           = c ! m + sum_list (map (\<lambda>j. sum_list (map (\<lambda>k. if f j k = m then g j k else (0::real)) ks)) js)"
  using assms
proof (induction js arbitrary: c)
  case Nil
  show ?case by simp
next
  case (Cons j js)
  let ?c' = "fold (\<lambda>k c. c[f j k := c ! f j k + g j k]) ks c"
  have len: "length ?c' = length c"
    by (rule fold_update_length)
  then have "m < length ?c'" using Cons.prems by simp
  then have "fold (\<lambda>j c. fold (\<lambda>k c. c[f j k := c ! f j k + g j k]) ks c) js ?c' ! m
      = ?c' ! m + sum_list (map (\<lambda>j. sum_list (map (\<lambda>k. if f j k = m then g j k else 0) ks)) js)"
    by (rule Cons.IH)
  moreover have "?c' ! m = c ! m + sum_list (map (\<lambda>k. if f j k = m then g j k else 0) ks)"
    using Cons.prems by (rule fold_add_nth)
  ultimately show ?case by simp
qed

lemma map_by_index: "map f xs = map (\<lambda>m. f (xs ! m)) [0..<length xs]"
  by (rule nth_equalityI) simp_all

lemma next_scale_regression:
  assumes "1 \<le> w"
  shows "next_scale w prev = Inr (regression_step w prev)"
proof -
  define po where "po = (int (length prev) - 1) div 2"
  define co where "co = po + w"
  define N where "N = sum_list (map (\<lambda>j. real_of_int (j * j)) [- w..w])"
  define c0 where "c0 = replicate (nat (int (length prev) + 2 * w)) (0::real)"
  define f where "f = (\<lambda>j k. nat (j + k + co))"
  define g where "g = (\<lambda>j k. real_of_int j * prev ! nat (k + po))"
  define cf where
    "cf = fold (\<lambda>j c. fold (\<lambda>k c. c[f j k := c ! f j k + g j k]) [- po..po] c) [- w..w] c0"
  have N: "0 < N"
    unfolding N_def using assms by (rule normalizer_pos)
  have len0: "length c0 = length prev + 2 * nat w"
    using assms by (simp add: c0_def nat_add_distrib nat_mult_distrib)
  have len: "length cf = length prev + 2 * nat w"
    unfolding cf_def using len0
    by (simp add: fold_length_invariant fold_update_length)
  have "next_scale w prev =
      (if cf \<noteq> [] \<and> 0 + N = 0 then Inl ZeroDivisionError
       else Inr (map (\<lambda>x. x / (0 + N)) cf))"
    unfolding N_def cf_def f_def g_def c0_def po_def co_def
    by (simp only: next_scale_def Let_def fold_pair_split prod.case)
  then have ns: "next_scale w prev = Inr (map (\<lambda>x. x / N) cf)"
    using N by simp
  have entry: "cf ! m = sum_list (map (\<lambda>j. sum_list (map (\<lambda>k. if j + k + co = int m
                                                         then real_of_int j * prev ! nat (k + po)
                                                         else 0) [- po..po])) [- w..w])"
    if m: "m < length prev + 2 * nat w" for m
  proof -
    have "cf ! m = c0 ! m
        + sum_list (map (\<lambda>j. sum_list (map (\<lambda>k. if f j k = m then g j k else 0) [- po..po])) [- w..w])"
      unfolding cf_def using m len0 by (intro fold_fold_add_nth) simp
    moreover have "c0 ! m = 0"
      using m len0 by (simp add: c0_def)
    moreover have "sum_list (map (\<lambda>j. sum_list (map (\<lambda>k. if f j k = m then g j k else 0) [- po..po])) [- w..w])
        = sum_list (map (\<lambda>j. sum_list (map (\<lambda>k. if j + k + co = int m
                                                         then real_of_int j * prev ! nat (k + po)
                                                         else 0) [- po..po])) [- w..w])"
    proof (intro arg_cong [where f = sum_list] map_cong refl)
      fix j k assume "j \<in> set [- w..w]" and "k \<in> set [- po..po]"
      then have "0 \<le> j + k + co" by (simp add: co_def)
      then have "f j k = m \<longleftrightarrow> j + k + co = int m"
        by (auto simp add: f_def)
      then show "(if f j k = m then g j k else 0)
          = (if j + k + co = int m then real_of_int j * prev ! nat (k + po) else 0)"
        by (simp add: g_def)
    qed
    ultimately show ?thesis by simp
  qed
  have "map (\<lambda>x. x / N) cf = map (\<lambda>m. cf ! m / N) [0..<length cf]"
    by (rule map_by_index)
  also have "\<dots> = regression_step w prev"
    unfolding regression_step_def Let_def po_def [symmetric] co_def [symmetric] N_def [symmetric] len
    by (rule map_cong [OF refl]) (simp add: entry)
  finally show ?thesis
    using ns by simp
qed

lemma length_regression_step: "length (regression_step w prev) = length prev + 2 * nat w"
  by (simp add: regression_step_def Let_def)

lemma length_regression_kernel: "length (regression_kernel w i) = 1 + 2 * i * nat w"
  by (induction i) (simp_all add: length_regression_step)

lemma create_scales_kernels_upto:
  assumes "1 \<le> w"
  shows "fold (\<lambda>i acc. case acc of
                      Inl e \<Rightarrow> Inl e
                    | Inr scales \<Rightarrow>
                       (case next_scale w (scales ! (i - 1)) of
                          Inl e \<Rightarrow> Inl e
                        | Inr new_scale \<Rightarrow> Inr (scales @ [new_scale])))
                [1..<n + 1] (Inr [[1]]) = Inr (map (regression_kernel w) [0..<n + 1])"
proof -
  define F where "F = (\<lambda>(i::nat) acc. case acc of
                      Inl (e::error) \<Rightarrow> Inl e
                    | Inr scales \<Rightarrow>
                       (case next_scale w (scales ! (i - 1)) of
                          Inl e \<Rightarrow> Inl e
                        | Inr new_scale \<Rightarrow> Inr (scales @ [new_scale])))"
  have "fold F [1..<n + 1] (Inr [[1]]) = Inr (map (regression_kernel w) [0..<n + 1])"
  proof (induction n)
    case 0
    show ?case by simp
  next
    case (Suc n)
    let ?scales = "map (regression_kernel w) [0..<n + 1]"
    have nth: "?scales ! n = regression_kernel w n"
      by (simp del: upt_Suc)
    have "[1..<Suc n + 1] = [1..<n + 1] @ [n + 1]"
      by simp
    then have "fold F [1..<Suc n + 1] (Inr [[1]]) = F (n + 1) (fold F [1..<n + 1] (Inr [[1]]))"
      by (simp only: fold_append fold_simps o_apply id_apply)
    also have "\<dots> = F (n + 1) (Inr ?scales)"
      by (simp only: Suc.IH)
    also have "\<dots> = Inr (?scales @ [regression_step w (?scales ! n)])"
      using next_scale_regression [OF assms, of "?scales ! n"] by (simp add: F_def)
    also have "?scales @ [regression_step w (?scales ! n)] = map (regression_kernel w) [0..<Suc n + 1]"
      by (simp only: nth) simp
    finally show ?case .
  qed
  then show ?thesis
    unfolding F_def .
qed

lemma create_scales_kernels:
  assumes "0 \<le> order" and "1 \<le> w"
  shows "create_scales order w = Inr (map (regression_kernel w) [0..<nat order + 1])"
  unfolding create_scales_def using create_scales_kernels_upto [OF assms(2), of "nat order"] .

lemma create_filters_kernels:
  assumes "0 \<le> order" and "1 \<le> w"
  shows "\<exists>fs. create_filters order w = Inr fs
           \<and> length fs = nat order + 1
           \<and> length (last fs) = 1 + 2 * nat order * nat w
           \<and> (\<forall>c \<le> nat order.
                 fs ! c = replicate ((nat order - c) * nat w) 0 @ regression_kernel w c
                            @ replicate ((nat order - c) * nat w) 0)"
proof -
  define n where "n = nat order"
  define v where "v = nat w"
  define scales where "scales = map (regression_kernel w) [0..<n + 1]"
  have cs: "create_scales order w = Inr scales"
    unfolding scales_def n_def using assms by (rule create_scales_kernels)
  have len: "length scales = n + 1"
    by (simp add: scales_def)
  have sc: "scales ! i = regression_kernel w i" if "i \<le> n" for i
    using that unfolding scales_def by (simp del: upt_Suc)
  have lens: "length (scales ! i) = 1 + 2 * i * v" if "i \<le> n" for i
    using that by (simp add: sc length_regression_kernel v_def)
  define L where "L = 1 + 2 * n * v"
  define P where "P = (\<lambda>scale :: real list.
      replicate (nat ((int L - int (length scale)) div 2)) 0 @ scale
        @ replicate (nat ((int L - int (length scale)) div 2)) 0)"
  define fs where "fs = map P (butlast scales) @ [last scales]"
  have ne: "scales \<noteq> []" using len by auto
  have last_eq: "last scales = scales ! n"
    using len ne by (simp add: last_conv_nth)
  have lastlen: "length (last scales) = L"
    using lens by (simp add: last_eq L_def)
  have P_nth: "P (scales ! i) = replicate ((n - i) * v) 0 @ scales ! i @ replicate ((n - i) * v) 0"
    if "i \<le> n" for i
    using that lens pad_eq [of i n v] by (simp add: P_def L_def)
  have P_len: "length (P (scales ! i)) = L" if "i \<le> n" for i
  proof -
    have "(n - i) * v + i * v = n * v"
      using that by (simp flip: add_mult_distrib)
    then have "2 * ((n - i) * v) + 2 * (i * v) = 2 * (n * v)"
      by linarith
    moreover have "L = 1 + 2 * (n * v)"
      by (simp add: L_def)
    moreover have "length (scales ! i) = 1 + 2 * (i * v)"
      using lens that by simp
    moreover have "length (P (scales ! i)) = (n - i) * v + (length (scales ! i) + (n - i) * v)"
      by (simp only: P_nth [OF that] length_append length_replicate)
    ultimately show ?thesis
      by linarith
  qed
  have fs_len: "length fs = n + 1"
    using len by (simp add: fs_def)
  have fs_nth: "fs ! c = (if c < n then P (scales ! c) else scales ! n)" if "c \<le> n" for c
    using that len by (auto simp add: fs_def nth_append nth_butlast last_eq)
  have fs_lens: "length (fs ! c) = L" if "c \<le> n" for c
    using that lens by (simp add: fs_nth P_len L_def)
  have all: "\<forall>scale \<in> set fs. length scale = L"
  proof
    fix scale assume "scale \<in> set fs"
    then obtain c where "c < length fs" "scale = fs ! c"
      by (auto simp add: in_set_conv_nth)
    then show "length scale = L"
      using fs_len fs_lens by simp
  qed
  have cf: "create_filters order w = Inr fs"
    using all by (simp add: create_filters_def cs Let_def lastlen P_def fs_def)
  have fs_last: "length (last fs) = L"
    by (simp add: fs_def lastlen)
  have fs_c: "fs ! c = replicate ((n - c) * v) 0 @ regression_kernel w c @ replicate ((n - c) * v) 0"
    if c: "c \<le> n" for c
  proof (cases "c < n")
    case True
    then show ?thesis using fs_nth [OF c] P_nth [OF c] sc [OF c] by simp
  next
    case False
    then have "c = n" using c by simp
    then show ?thesis using fs_nth [OF c] sc [of n] by simp
  qed
  show ?thesis
    using cf fs_len fs_last fs_c
    unfolding n_def [symmetric] v_def [symmetric] L_def by blast
qed

lemma correlate_by_index:
  assumes "length xs \<le> length ys"
  shows "sum_list (map2 (*) xs ys) = sum_list (map (\<lambda>k. xs ! k * (ys ! k :: real)) [0..<length xs])"
proof -
  have "map2 (*) xs ys = map (\<lambda>k. xs ! k * ys ! k) [0..<length xs]"
    using assms by (intro nth_equalityI) simp_all
  then show ?thesis by simp
qed

lemma conv1d_nth:
  assumes "t + length taps \<le> length row + 2 * p"
  shows "conv1d taps p row ! t =
           sum_list (map (\<lambda>k. taps ! k * (replicate p 0 @ row @ replicate p 0) ! (t + k))
                         [0..<length taps])"
proof -
  let ?padded = "replicate p 0 @ row @ replicate p (0::real)"
  have t: "t < length ?padded + 1 - length taps"
    using assms by simp
  then have "conv1d taps p row ! t = sum_list (map2 (*) taps (drop t ?padded))"
    by (simp add: conv1d_def Let_def del: upt_Suc)
  also have "\<dots> = sum_list (map (\<lambda>k. taps ! k * drop t ?padded ! k) [0..<length taps])"
    using assms by (intro correlate_by_index) simp
  also have "\<dots> = sum_list (map (\<lambda>k. taps ! k * ?padded ! (t + k)) [0..<length taps])"
  proof (intro arg_cong [where f = sum_list] map_cong refl)
    fix k assume "k \<in> set [0..<length taps]"
    then have "t + k \<le> length ?padded" using assms by simp
    then have "drop t ?padded ! k = ?padded ! (t + k)"
      by (subst nth_drop) simp_all
    then show "taps ! k * drop t ?padded ! k = taps ! k * ?padded ! (t + k)" by simp
  qed
  finally show ?thesis .
qed

lemma conv_a: "conv1d [- (1 / 2), 0, 1 / 2] (Suc 0) [1, 0] = [0, - (1 / 2)]"
  by (simp add: conv1d_def Let_def)

lemma conv_b: "conv1d [- (1 / 2), 0, 1 / 2] (Suc 0) [2, 0] = [0, - 1]"
  by (simp add: conv1d_def Let_def)

lemma conv_c: "conv1d [- (1 / 2), 0, 1 / 2] (Suc 0) [4, 0] = [0, - 2]"
  by (simp add: conv1d_def Let_def)

lemma conv_u: "conv1d [0, 1, 0] (Suc 0) [a, b] = [a, b]"
  by (simp add: conv1d_def Let_def)

lemma conv_t0: "conv1d [- (1 / 2), 0, 1 / 2] (Suc 0) [1, 2, 4] = [1, 3 / 2, - 1]"
  by (simp add: conv1d_def Let_def)

lemma conv_t1: "conv1d [- (1 / 2), 0, 1 / 2] (Suc 0) [0, 0, 0] = [0, 0, 0]"
  by (simp add: conv1d_def Let_def)

lemma upto_m1_1: "[- 1..1] = [- 1, 0, 1 :: int]"
  by (simp add: upto_rec1)

lemma regression_step_1: "regression_step 1 [1] = [- (1 / 2), 0, 1 / 2]"
  by (simp add: regression_step_def Let_def upto_m1_1 upt_3)

lemma next_scale_1: "next_scale 1 [1] = Inr [- (1 / 2), 0, 1 / 2]"
  using next_scale_regression [of 1 "[1]"] by (simp add: regression_step_1)

lemma create_scales_1_1: "create_scales 1 1 = Inr [[1], [- (1 / 2), 0, 1 / 2]]"
  by (simp add: create_scales_def next_scale_1)

lemma create_filters_1_1: "create_filters 1 1 = Inr [[0, 1, 0], [- (1 / 2), 0, 1 / 2]]"
  by (simp add: create_filters_def create_scales_1_1 Let_def)

lemma delta_init_1_1:
  "Delta_init 1 1 False =
     Inr \<lparr>batch = False, filters = [[0, 1, 0], [- (1 / 2), 0, 1 / 2]], padding = (0, 1)\<rparr>"
  by (simp add: Delta_init_def create_filters_1_1)

lemma delta_forward_frames:
  "Delta_forward \<lparr>batch = False, filters = [[0, 1, 0], [- (1 / 2), 0, 1 / 2]], padding = (0, 1)\<rparr>
     [[[1, 0], [2, 0], [4, 0]]]
   = Inr (Unbatched [[[1, 0], [2, 0], [4, 0]], [[0, - (1 / 2)], [0, - 1], [0, - 2]]])"
  by (simp add: Delta_forward_def conv2d_def conv_a conv_b conv_c conv_u)

lemma transpose_frames: "transpose [[1, 0], [2, 0], [4, 0 :: real]] = [[1, 2, 4], [0, 0, 0]]"
  by (simp add: transpose.simps)

lemma transpose_back: "transpose [[1, 3 / 2, - 1], [0, 0, 0 :: real]] = [[1, 0], [3 / 2, 0], [- 1, 0]]"
  by (simp add: transpose.simps)

lemma delta_along_time:
  "transpose (map (conv1d [- (1 / 2), 0, 1 / 2] 1) (transpose [[1, 0], [2, 0], [4, 0]]))
   = [[1, 0], [3 / 2, 0], [- 1, 0]]"
  by (simp add: transpose_frames conv_t0 conv_t1 transpose_back)

lemma normalizer_0: "next_scale 0 [1] = Inl ZeroDivisionError"
  by (simp add: next_scale_def Let_def)

lemma delta_init_1_0: "Delta_init 1 0 False = Inl ZeroDivisionError"
  by (simp add: Delta_init_def create_filters_def create_scales_def normalizer_0)

subsection \<open>Normalisation\<close>

text \<open>
  C10.  For a feature value in [0, 1] and a negative floor \<open>min_level_db\<close>,
  normalising the de-normalised value gives the value back, exactly.
\<close>

theorem normalize_denormalize_id:
  assumes "0 \<le> x" and "x \<le> 1" and "min_level_db self < 0"
  shows "normalize_feat self (denormalize self x) = x"
proof -
  have nz: "min_level_db self \<noteq> 0"
    using assms(3) by simp
  have "(denormalize self x - min_level_db self) / - min_level_db self = x"
    using nz assms(1,2) by (simp add: denormalize_def clamp_id)
  then show ?thesis
    using assms(1,2) by (simp add: normalize_feat_def clamp_id)
qed

theorem normalize_denormalize_id_witness:
  "normalize_feat \<lparr>ref_level_db = 20, min_level_db = - 100,
       preemphasis_coeff = 97 / 100, fb = []\<rparr>
     (denormalize \<lparr>ref_level_db = 20, min_level_db = - 100,
       preemphasis_coeff = 97 / 100, fb = []\<rparr> (1 / 4)) = 1 / 4"
  using normalize_denormalize_id
    [of "1 / 4" "\<lparr>ref_level_db = 20, min_level_db = - 100,
       preemphasis_coeff = 97 / 100, fb = []\<rparr>"]
  by simp



subsection \<open>Forward feature path\<close>

text \<open>
  C3, as stated, fails: with a transform whose single bin is the sample itself
  and the waveform [2], the value handed to the mel projection is 2, while the
  squared magnitude is 4.
\<close>

theorem forward_specgram_not_power:
  "forward_specgram \<lparr>ref_level_db = 20, min_level_db = - 100,
       preemphasis_coeff = 97 / 100, fb = [[1]]\<rparr> (\<lambda>w. [map (\<lambda>v. Complex v 0) w]) [2] = [[2]]
   \<and> map (map (\<lambda>z. (cmod z)\<^sup>2)) ((\<lambda>w. [map (\<lambda>v. Complex v 0) w])
       (preemphasis \<lparr>ref_level_db = 20, min_level_db = - 100,
       preemphasis_coeff = 97 / 100, fb = [[1]]\<rparr> [2])) = [[4]]"
  by (simp add: forward_specgram_def to_specgram_def preemphasis_def cmod_def)

text \<open>
  C3, amended.  The quantity that is mel-projected and converted to dB is the
  magnitude of the short-time transform of the pre-emphasised waveform: the
  power spectrogram (\<open>power=2\<close>) followed by the square root of line 233.
\<close>

theorem forward_specgram_magnitude:
  "forward_specgram self stft waveform = map (map cmod) (stft (preemphasis self waveform))
   \<and> forward self stft waveform =
       map (map (\<lambda>x. normalize_feat self (amp_to_db x (1 / 10 ^ 5) - ref_level_db self)))
         (to_melspecgram (fb self) (map (map cmod) (stft (preemphasis self waveform))))"
  by (simp add: forward_def forward_specgram_def to_specgram_def Let_def comp_def sqrt_re_im_cmod)

subsection \<open>Griffin-Lim\<close>

text \<open>
  C2, as stated, fails on "configurable": the loop bound is the literal 30 of
  line 293, and the one iteration constant of the module, \<open>GRIFFIN_LIM_ITER = 50\<close>,
  is a different number that the loop never reads.
\<close>

theorem griffin_lim_budget_not_configured:
  "length griffin_lim_range = 30 \<and> GRIFFIN_LIM_ITER = 50
   \<and> length griffin_lim_range \<noteq> GRIFFIN_LIM_ITER"
  by (simp add: griffin_lim_range_def GRIFFIN_LIM_ITER_def)

text \<open>
  C2, amended.  For every magnitude spectrogram, every initial phase matrix and
  every transform pair, \<open>_griffin_lim\<close> applies the phase-update transition
  exactly 30 times to the first inverse transform, with no test in between, and
  returns the output of an inverse transform.
\<close>

theorem griffin_lim_fixed_30:
  "griffin_lim stft istft angle phases specgram =
     ((griffin_lim_body stft istft angle (map (map abs) specgram)) ^^ 30)
        (istft (to_complex (map (map abs) specgram) phases))
   \<and> (\<exists>y. griffin_lim stft istft angle phases specgram = istft y)"
proof -
  let ?f = "griffin_lim_body stft istft angle (map (map abs) specgram)"
  let ?x0 = "istft (to_complex (map (map abs) specgram) phases)"
  have eq: "griffin_lim stft istft angle phases specgram = (?f ^^ 30) ?x0"
    by (simp only: griffin_lim_def griffin_lim_range_def Let_def fold_const_funpow)
  have "(30::nat) = Suc 29" by simp
  then have "(?f ^^ 30) ?x0 = ?f ((?f ^^ 29) ?x0)"
    by (simp only: funpow.simps o_apply)
  then have "\<exists>y. (?f ^^ 30) ?x0 = istft y"
    by (simp only: griffin_lim_body_def Let_def) blast
  with eq show ?thesis by simp
qed

subsection \<open>Frequency scale\<close>

text \<open>
  C4.  For every frequency f \<ge> 0 and both schemes, converting to mel and back
  gives f (exactly, over the reals); the composed Slaney mapping and the Slaney
  \<open>hz_to_mel\<close> itself are continuous at the 1000 Hz boundary.
\<close>

theorem mel_roundtrip:
  "(\<forall>htk. \<forall>f\<ge>0. mel_to_hz (hz_to_mel f htk) htk = f)
   \<and> isCont (\<lambda>f. mel_to_hz (hz_to_mel f False) False) 1000
   \<and> isCont (\<lambda>f. hz_to_mel f False) 1000"
proof (intro conjI allI impI)
  fix htk and f :: real assume "0 \<le> f"
  then show "mel_to_hz (hz_to_mel f htk) htk = f"
    by (cases htk) (simp_all add: slaney_roundtrip htk_roundtrip)
next
  show "isCont (\<lambda>f. mel_to_hz (hz_to_mel f False) False) 1000"
    by (simp add: slaney_roundtrip)
next
  show "isCont (\<lambda>f. hz_to_mel f False) 1000"
    by (rule hz_to_mel_slaney_cont)
qed

theorem mel_roundtrip_witness:
  "(0::real) \<le> 2000 \<and> mel_to_hz (hz_to_mel 2000 False) False = 2000
   \<and> mel_to_hz (hz_to_mel 440 True) True = 440"
  using mel_roundtrip by simp

subsection \<open>CMVN\<close>

text \<open>
  C9.  Construction with a mode other than "global" raises NotImplementedError;
  construction with "global" succeeds; \<open>forward\<close> never raises, and on a
  constructed object it always returns the normalised tensor.
\<close>

theorem CMVN_mode_check:
  "(m \<noteq> ''global'' \<longrightarrow> CMVN_init m d e = Inl NotImplementedError)
   \<and> CMVN_init ''global'' d e = Inr \<lparr>mode = ''global'', dim = d, eps = e\<rparr>
   \<and> (\<forall>self x err. CMVN_forward self x \<noteq> Inl err)
   \<and> (\<forall>self x. CMVN_init m d e = Inr self \<longrightarrow> (\<exists>y. CMVN_forward self x = Inr (Some y)))"
  by (auto simp add: CMVN_init_def CMVN_forward_def split: if_splits)

theorem CMVN_mode_check_witness:
  "CMVN_init ''utterance'' 2 (1 / 10 ^ 10) = Inl NotImplementedError
   \<and> CMVN_init ''global'' 2 (1 / 10 ^ 10) = Inr \<lparr>mode = ''global'', dim = 2, eps = 1 / 10 ^ 10\<rparr>
   \<and> (\<exists>y. CMVN_forward \<lparr>mode = ''global'', dim = 2, eps = 1 / 10 ^ 10\<rparr> [[1, 3]] = Inr (Some y))"
  using CMVN_mode_check [of "''utterance''" 2 "1 / 10 ^ 10"]
        CMVN_mode_check [of "''global''" 2 "1 / 10 ^ 10"]
  by simp

subsection \<open>Mel filterbank\<close>

text \<open>
  C5, as stated, fails.  For sr = 1200, n_fft = 4 and one band, the band edges
  are 0 and 9 in the mel domain and 0 Hz and 600 Hz in frequency; the code
  scales the triangular row [0, 1, 0] by 1/300 = 2/(600 - 0), not by 2/(9 - 0),
  and the row sum times the mel bandwidth is not 2.  Nor is the sum times the
  width in Hz equal to 2 in general: with n_fft = 8 it is 4.
\<close>

theorem mel_filterbank_scale_not_mel_domain:
  "create_mel_filterbank 1200 4 1 0 None False NormOne = Inr [[0, 1 / 300, 0]]
   \<and> mel_frequencies 3 0 600 False = Inr [0, 300, 600]
   \<and> mel_weights [0, 300, 600] [0, 300, 600] 1 = [[0, 1, 0]]
   \<and> linspace (hz_to_mel 0 False) (hz_to_mel 600 False) 3 = [0, 9 / 2, 9]
   \<and> [0, 1 / 300, 0] \<noteq> map (\<lambda>w. w * (2 / (9 - 0))) [0, 1, 0 :: real]
   \<and> sum_list [0, 1 / 300, 0] * (9 - 0) \<noteq> (2 :: real)
   \<and> create_mel_filterbank 1200 8 1 0 None False NormOne
        = Inr [[0, 1 / 600, 1 / 300, 1 / 600, 0]]
   \<and> sum_list [0, 1 / 600, 1 / 300, 1 / 600, 0] * (600 - 0) \<noteq> (2 :: real)"
  using fb_weights_1200_4
  by (simp add: fb_1200_4 fb_mel_1200 fb_mel_edges_1200 fb_1200_8)

text \<open>
  C5, amended.  For every configuration with sr > 0, n_fft > 0 and n_mels > 0,
  the default frequency range and area normalisation, the band edges \<open>mel_f\<close>
  are frequencies in Hz running from 0 to sr/2; the construction either stops at
  the empty-filter warning or returns a matrix of n_mels rows in which row i is
  the triangular row, whose entries lie in [0, 1], scaled by
  2 / (mel_f[i+2] - mel_f[i]), a positive width in Hz.
\<close>

theorem mel_filterbank_area_norm:
  assumes "0 < sr" and "0 < n_fft" and "0 < n_mels"
  shows "\<exists>mel_f fftfreqs.
      mel_frequencies (n_mels + 2) 0 (sr / 2) htk = Inr mel_f
    \<and> fft_frequencies sr n_fft = Inr fftfreqs
    \<and> mel_f ! 0 = 0 \<and> mel_f ! (nat n_mels + 1) = sr / 2
    \<and> (case create_mel_filterbank sr n_fft n_mels 0 None htk NormOne of
         Inl e \<Rightarrow> e = NameError ''warnings''
       | Inr W \<Rightarrow> length W = nat n_mels \<and>
           (\<forall>i < nat n_mels.
              mel_f ! i < mel_f ! (i + 2)
            \<and> W ! i = map (\<lambda>w. w * (2 / (mel_f ! (i + 2) - mel_f ! i)))
                          (mel_weights mel_f fftfreqs (nat n_mels) ! i)
            \<and> (\<forall>w \<in> set (mel_weights mel_f fftfreqs (nat n_mels) ! i). 0 \<le> w \<and> w \<le> 1)))"
proof -
  define n where "n = nat n_mels"
  define mel_f where
    "mel_f = map (\<lambda>m. mel_to_hz m htk) (linspace (hz_to_mel 0 htk) (hz_to_mel (sr / 2) htk) (n + 2))"
  define ff where "ff = linspace 0 (sr / 2) (nat (1 + n_fft div 2))"
  define W where "W = map2 (\<lambda>e row. map (\<lambda>w. w * e) row) (enorm mel_f n) (mel_weights mel_f ff n)"
  have nn: "nat (n_mels + 2) = n + 2"
    using assms(3) by (simp add: n_def)
  have mf: "mel_frequencies (n_mels + 2) 0 (sr / 2) htk = Inr mel_f"
    using assms(3) by (simp add: mel_frequencies_ok nn mel_f_def)
  have kpos: "\<not> 1 + n_fft div 2 < 0" "nat (1 + n_fft div 2) \<noteq> 0"
    using assms(2) by (simp_all add: pos_imp_zdiv_nonneg_iff)
  have fq: "fft_frequencies sr n_fft = Inr ff"
    using kpos by (simp add: fft_frequencies_def ff_def)
  have ffne: "ff \<noteq> []"
    using kpos by (simp add: ff_def linspace_def Let_def)
  have len: "length mel_f = n + 2"
    by (simp add: mel_f_def length_linspace)
  have mono: "mel_f ! j < mel_f ! k" if "j < k" and "k < n + 2" for j k
    unfolding mel_f_def using assms(1) that by (intro mel_points_strict_mono) simp_all
  have ends: "mel_f ! 0 = 0" "mel_f ! (n + 1) = sr / 2"
    unfolding mel_f_def
    using assms(1) mel_points_ends [of 0 "sr / 2" "n + 2" htk] by simp_all
  have lenW: "length W = n"
    by (simp add: W_def length_enorm len length_mel_weights)
  have rows: "mel_f ! i < mel_f ! (i + 2)
      \<and> W ! i = map (\<lambda>w. w * (2 / (mel_f ! (i + 2) - mel_f ! i))) (mel_weights mel_f ff n ! i)
      \<and> (\<forall>w \<in> set (mel_weights mel_f ff n ! i). 0 \<le> w \<and> w \<le> 1)" if i: "i < n" for i
  proof (intro conjI)
    show "mel_f ! i < mel_f ! (i + 2)"
      using i by (intro mono) simp_all
    show "W ! i = map (\<lambda>w. w * (2 / (mel_f ! (i + 2) - mel_f ! i))) (mel_weights mel_f ff n ! i)"
      using i by (simp add: W_def length_enorm len length_mel_weights enorm_nth)
    have l: "mel_f ! i < mel_f ! (i + 1)" and r: "mel_f ! (i + 1) < mel_f ! (i + 2)"
      using i by (auto intro!: mono)
    show "\<forall>w \<in> set (mel_weights mel_f ff n ! i). 0 \<le> w \<and> w \<le> 1"
      using i len triangle_bounds [OF l r]
      by (auto simp add: mel_weights_nth simp del: max.bounded_iff)
  qed
  have create: "create_mel_filterbank sr n_fft n_mels 0 None htk NormOne =
      (if \<not> list_all (\<lambda>(m, row). m = 0 \<or> Max (set row) > 0) (zip (take n mel_f) W)
       then Inl (NameError ''warnings'') else Inr W)"
    using assms(3) kpos ffne
    by (simp add: create_mel_filterbank_def mf fq W_def n_def [symmetric] Let_def)
  have ends': "mel_f ! (nat n_mels + 1) = sr / 2"
    using ends(2) by (simp add: n_def)
  have main: "case create_mel_filterbank sr n_fft n_mels 0 None htk NormOne of
         Inl e \<Rightarrow> e = NameError ''warnings''
       | Inr W \<Rightarrow> length W = nat n_mels \<and>
           (\<forall>i < nat n_mels.
              mel_f ! i < mel_f ! (i + 2)
            \<and> W ! i = map (\<lambda>w. w * (2 / (mel_f ! (i + 2) - mel_f ! i)))
                          (mel_weights mel_f ff (nat n_mels) ! i)
            \<and> (\<forall>w \<in> set (mel_weights mel_f ff (nat n_mels) ! i). 0 \<le> w \<and> w \<le> 1))"
    using rows lenW by (simp add: create n_def [symmetric])
  show ?thesis
    by (rule exI [of _ mel_f], rule exI [of _ ff]) (intro conjI mf fq ends(1) ends' main)
qed

theorem mel_filterbank_area_norm_witness:
  "0 < (1200::real) \<and> 0 < (4::int) \<and> 0 < (1::int)
   \<and> create_mel_filterbank 1200 4 1 0 None False NormOne = Inr [[0, 1 / 300, 0]]
   \<and> (\<exists>mel_f fftfreqs.
        mel_frequencies 3 0 600 False = Inr mel_f
      \<and> fft_frequencies 1200 4 = Inr fftfreqs
      \<and> mel_f ! 0 < mel_f ! 2
      \<and> [0, 1 / 300, 0] = map (\<lambda>w. w * (2 / (mel_f ! 2 - mel_f ! 0)))
                               (mel_weights mel_f fftfreqs 1 ! 0))"
proof -
  from mel_filterbank_area_norm [of 1200 4 1 False]
  obtain mel_f fftfreqs where
    a: "mel_frequencies 3 0 600 False = Inr mel_f" and
    b: "fft_frequencies 1200 4 = Inr fftfreqs" and
    c: "mel_f ! 0 < mel_f ! 2" and
    d: "[0, 1 / 300, 0] = map (\<lambda>w. w * (2 / (mel_f ! 2 - mel_f ! 0)))
                               (mel_weights mel_f fftfreqs 1 ! 0)"
    by (auto simp add: fb_1200_4 numeral_2_eq_2)
  have "\<exists>mel_f fftfreqs.
        mel_frequencies 3 0 600 False = Inr mel_f
      \<and> fft_frequencies 1200 4 = Inr fftfreqs
      \<and> mel_f ! 0 < mel_f ! 2
      \<and> [0, 1 / 300, 0] = map (\<lambda>w. w * (2 / (mel_f ! 2 - mel_f ! 0)))
                               (mel_weights mel_f fftfreqs 1 ! 0)"
    by (rule exI [of _ mel_f], rule exI [of _ fftfreqs]) (intro conjI a b c d)
  then show ?thesis
    by (simp only: fb_1200_4) simp
qed

text \<open>
  C8, as stated, fails: a band count of zero returns the empty matrix, and
  fmin = 600 above fmax = 0 returns a filterbank, both without any error.
\<close>

theorem create_mel_filterbank_accepts_degenerate:
  "create_mel_filterbank 16000 1025 0 0 None False NormOne = Inr []
   \<and> create_mel_filterbank 1200 4 1 600 (Some 0) False NormNone = Inr [[0, 1, 0]]"
  using create_mel_filterbank_zero_bands [of 1025 NormOne 16000 0 None False]
  by (simp add: fb_reversed)

text \<open>
  C8, amended.  The constructor tests neither the band count nor fmin against
  fmax.  For a band count of zero (n_fft not negative, a supported norm) it
  returns the empty matrix for every fmin and fmax, also when fmin \<ge> fmax; a
  negative band count fails with the ValueError of the array allocation.
\<close>

theorem create_mel_filterbank_no_validation:
  "(0 \<le> n_fft \<and> norm_arg \<noteq> NormOther \<longrightarrow>
      create_mel_filterbank sr n_fft 0 fmin fmax_arg htk norm_arg = Inr [])
   \<and> (n_mels < 0 \<and> norm_arg \<noteq> NormOther \<longrightarrow>
      create_mel_filterbank sr n_fft n_mels fmin fmax_arg htk norm_arg = Inl ValueError)"
  by (simp add: create_mel_filterbank_zero_bands create_mel_filterbank_negative_bands)

theorem create_mel_filterbank_no_validation_witness:
  "create_mel_filterbank 16000 1025 0 4000 (Some 1000) False NormOne = Inr []
   \<and> create_mel_filterbank 16000 1025 (- 1) 4000 (Some 1000) False NormOne = Inl ValueError"
  using create_mel_filterbank_no_validation [of 1025 NormOne 16000 4000 "Some 1000" False "- 1"]
  by simp

subsection \<open>Delta\<close>

text \<open>
  C6, as stated, fails.  On an input of three frames by two features,
  [[1, 0], [2, 0], [4, 0]], with order 1 and window size 1, \<open>forward\<close> slides the
  kernel [-1/2, 0, 1/2] along each frame, across the two features: the delta
  channel is [[0, -1/2], [0, -1], [0, -2]], in which the constant second feature
  has a non-zero delta taken from the first.  The same kernel applied along time
  to each feature on its own gives [[1, 0], [3/2, 0], [-1, 0]].  And not every
  configuration can be built: order 1 with window size 0 raises
  ZeroDivisionError in the constructor.
\<close>

theorem Delta_forward_not_along_time:
  "Delta_init 1 1 False =
     Inr \<lparr>batch = False, filters = [[0, 1, 0], [- (1 / 2), 0, 1 / 2]], padding = (0, 1)\<rparr>
   \<and> Delta_forward \<lparr>batch = False, filters = [[0, 1, 0], [- (1 / 2), 0, 1 / 2]], padding = (0, 1)\<rparr>
        [[[1, 0], [2, 0], [4, 0]]]
      = Inr (Unbatched [[[1, 0], [2, 0], [4, 0]], [[0, - (1 / 2)], [0, - 1], [0, - 2]]])
   \<and> transpose (map (conv1d [- (1 / 2), 0, 1 / 2] 1) (transpose [[1, 0], [2, 0], [4, 0]]))
      = [[1, 0], [3 / 2, 0], [- 1, 0]]
   \<and> [[0, - (1 / 2)], [0, - 1], [0, - 2]] \<noteq> [[1, 0], [3 / 2, 0], [- 1, 0 :: real]]
   \<and> Delta_init 1 0 False = Inl ZeroDivisionError"
proof (intro conjI)
  show "[[0, - (1 / 2)], [0, - 1], [0, - 2]] \<noteq> [[1, 0], [3 / 2, 0], [- 1, 0 :: real]]"
    by simp
qed (rule delta_init_1_1 delta_forward_frames delta_along_time delta_init_1_0)+

text \<open>
  C6, amended.  For every order \<ge> 0 and window size \<ge> 1 and every non-empty
  matrix whose rows have the same length T \<ge> 1, construction succeeds with
  order + 1 kernels, kernel c being the regression kernel of order c between
  (order - c) * window_size zeros on each side, and \<open>forward\<close> returns order + 1
  channels of the shape of the input.  Entry t of row h of channel c is the sum
  over the taps k of kernel[c][k] times entry t + k of row h padded with
  order * window_size zeros on both sides: the kernels slide along the last axis
  of the input, each row on its own, and channel 0 is the input itself.  The
  derivative is therefore taken along time exactly when time is the last axis,
  the layout [feature_dim, time].
\<close>

theorem Delta_forward_last_axis:
  assumes "0 \<le> order" and "1 \<le> window_size"
    and "x \<noteq> []" and "0 < T" and "\<forall>row \<in> set x. length row = T"
  shows "\<exists>self out.
      Delta_init order window_size False = Inr self
    \<and> snd (padding self) = nat order * nat window_size
    \<and> length (filters self) = nat order + 1
    \<and> (\<forall>c < nat order + 1.
          filters self ! c =
            replicate ((nat order - c) * nat window_size) 0 @ regression_kernel window_size c
              @ replicate ((nat order - c) * nat window_size) 0)
    \<and> Delta_forward self [x] = Inr (Unbatched out)
    \<and> length out = nat order + 1
    \<and> (\<forall>c < nat order + 1.
          length (out ! c) = length x
        \<and> (\<forall>h < length x.
              length (out ! c ! h) = T
            \<and> (\<forall>t < T.
                  out ! c ! h ! t =
                    sum_list (map (\<lambda>k. filters self ! c ! k
                                        * (replicate (nat order * nat window_size) 0 @ x ! h
                                             @ replicate (nat order * nat window_size) 0) ! (t + k))
                                  [0..<1 + 2 * nat order * nat window_size]))))
    \<and> out ! 0 = x"
proof -
  define n where "n = nat order"
  define v where "v = nat window_size"
  define p where "p = n * v"
  obtain fs where
    cf: "create_filters order window_size = Inr fs"
    and fs_len: "length fs = n + 1"
    and fs_last: "length (last fs) = 1 + 2 * n * v"
    and fs_c: "\<forall>c \<le> n. fs ! c = replicate ((n - c) * v) 0 @ regression_kernel window_size c
                            @ replicate ((n - c) * v) 0"
    unfolding n_def v_def using create_filters_kernels [OF assms(1,2)] by blast
  define self where "self = \<lparr>batch = False, filters = fs, padding = (0, p)\<rparr>"
  define out where "out = map (\<lambda>taps. map (conv1d taps p) x) fs"
  have L: "1 + 2 * n * v = 1 + 2 * p"
    by (simp add: p_def)
  have fs_lens: "length (fs ! c) = 1 + 2 * p" if c: "c \<le> n" for c
  proof -
    have "(n - c) * v + c * v = n * v"
      using c by (simp flip: add_mult_distrib)
    then have "2 * ((n - c) * v) + 2 * (c * v) = 2 * (n * v)"
      by linarith
    moreover have "length (fs ! c) = (n - c) * v + (length (regression_kernel window_size c) + (n - c) * v)"
      using fs_c c by simp
    moreover have "length (regression_kernel window_size c) = 1 + 2 * (c * v)"
      by (simp add: length_regression_kernel v_def)
    ultimately show ?thesis
      unfolding p_def by linarith
  qed
  have fs0: "fs ! 0 = replicate p 0 @ [1] @ replicate p 0"
    using fs_c by (simp add: p_def)
  have fs_last': "length (last fs) = 1 + 2 * p"
    using fs_last L by simp
  have pd: "nat ((int (1 + 2 * p) - 1) div 2) = p"
    by simp
  have init: "Delta_init order window_size False = Inr self"
    by (simp only: Delta_init_def cf sum.case fs_last' pd self_def)
  obtain row rest where x: "x = row # rest"
    using assms(3) by (cases x) auto
  have row: "length row = T"
    using assms(5) x by simp
  have conv: "conv2d x fs p = Inr out"
    using row assms(4) by (simp add: conv2d_def x fs_last' out_def)
  have fwd: "Delta_forward self [x] = Inr (Unbatched out)"
    by (simp add: Delta_forward_def self_def conv)
  have len_out: "length out = n + 1"
    by (simp add: out_def fs_len)
  have rows: "length (out ! c) = length x
        \<and> (\<forall>h < length x.
              length (out ! c ! h) = T
            \<and> (\<forall>t < T. out ! c ! h ! t =
                    sum_list (map (\<lambda>k. fs ! c ! k * (replicate p 0 @ x ! h @ replicate p 0) ! (t + k))
                                  [0..<1 + 2 * p])))" if c: "c < n + 1" for c
  proof (intro conjI allI impI)
    show "length (out ! c) = length x"
      using c by (simp add: out_def fs_len)
    fix h assume h: "h < length x"
    have eq: "out ! c ! h = conv1d (fs ! c) p (x ! h)"
      using c h by (simp add: out_def fs_len)
    have lx: "length (x ! h) = T"
      using assms(5) h by simp
    have lf: "length (fs ! c) = 1 + 2 * p"
      using fs_lens c by simp
    show "length (out ! c ! h) = T"
      using lx lf by (simp add: eq length_conv1d)
    fix t assume t: "t < T"
    have "t + length (fs ! c) \<le> length (x ! h) + 2 * p"
      using t lx lf by simp
    then have "conv1d (fs ! c) p (x ! h) ! t =
        sum_list (map (\<lambda>k. fs ! c ! k * (replicate p 0 @ x ! h @ replicate p 0) ! (t + k))
                      [0..<length (fs ! c)])"
      by (rule conv1d_nth)
    then show "out ! c ! h ! t =
        sum_list (map (\<lambda>k. fs ! c ! k * (replicate p 0 @ x ! h @ replicate p 0) ! (t + k))
                      [0..<1 + 2 * p])"
      by (simp only: eq lf)
  qed
  have "out ! 0 = map (conv1d (fs ! 0) p) x"
    by (simp add: out_def fs_len)
  also have "\<dots> = x"
    by (rule map_idI) (simp only: fs0 conv1d_unit)
  finally have out0: "out ! 0 = x" .
  have sel: "filters self = fs" "snd (padding self) = p"
    by (simp_all add: self_def)
  have pe: "nat order * nat window_size = p"
    by (simp add: p_def n_def v_def)
  have Le: "1 + 2 * nat order * nat window_size = 1 + 2 * p"
    using L by (simp add: n_def v_def)
  have c1: "snd (padding self) = nat order * nat window_size"
    by (simp only: sel pe)
  have c2: "length (filters self) = nat order + 1"
    by (simp add: sel fs_len n_def)
  have c3: "\<forall>c < nat order + 1.
          filters self ! c =
            replicate ((nat order - c) * nat window_size) 0 @ regression_kernel window_size c
              @ replicate ((nat order - c) * nat window_size) 0"
    unfolding sel n_def [symmetric] v_def [symmetric] using fs_c by simp
  have c5: "length out = nat order + 1"
    using len_out by (simp add: n_def)
  have c6: "\<forall>c < nat order + 1.
          length (out ! c) = length x
        \<and> (\<forall>h < length x.
              length (out ! c ! h) = T
            \<and> (\<forall>t < T.
                  out ! c ! h ! t =
                    sum_list (map (\<lambda>k. filters self ! c ! k
                                        * (replicate (nat order * nat window_size) 0 @ x ! h
                                             @ replicate (nat order * nat window_size) 0) ! (t + k))
                                  [0..<1 + 2 * nat order * nat window_size])))"
  proof (intro allI impI)
    fix c assume "c < nat order + 1"
    then have c: "c < n + 1" by (simp add: n_def)
    show "length (out ! c) = length x
        \<and> (\<forall>h < length x.
              length (out ! c ! h) = T
            \<and> (\<forall>t < T.
                  out ! c ! h ! t =
                    sum_list (map (\<lambda>k. filters self ! c ! k
                                        * (replicate (nat order * nat window_size) 0 @ x ! h
                                             @ replicate (nat order * nat window_size) 0) ! (t + k))
                                  [0..<1 + 2 * nat order * nat window_size])))"
      using rows [OF c] unfolding sel pe Le .
  qed
  show ?thesis
    by (rule exI [of _ self], rule exI [of _ out]) (intro conjI init c1 c2 c3 fwd c5 c6 out0)
qed

theorem Delta_forward_last_axis_witness:
  "\<exists>self out.
      Delta_init 1 2 False = Inr self
    \<and> snd (padding self) = 2
    \<and> length (filters self) = 2
    \<and> filters self ! 1 = regression_kernel 2 1
    \<and> Delta_forward self [[[1, 2, 3], [0, 5, 0]]] = Inr (Unbatched out)
    \<and> length out = 2
    \<and> length (out ! 1) = 2
    \<and> length (out ! 1 ! 1) = 3
    \<and> out ! 0 = [[1, 2, 3], [0, 5, 0]]"
proof -
  have h: "(0::int) \<le> 1" "(1::int) \<le> 2" "[[1, 2, 3], [0, 5, 0 :: real]] \<noteq> []" "(0::nat) < 3"
    "\<forall>row \<in> set [[1, 2, 3], [0, 5, 0 :: real]]. length row = 3"
    by simp_all
  from Delta_forward_last_axis [OF h]
  obtain self out where
    a: "Delta_init 1 2 False = Inr self"
    and b: "snd (padding self) = nat 1 * nat 2"
    and c: "length (filters self) = nat 1 + 1"
    and k: "\<forall>c < nat 1 + 1.
          filters self ! c =
            replicate ((nat 1 - c) * nat 2) 0 @ regression_kernel 2 c @ replicate ((nat 1 - c) * nat 2) 0"
    and f: "Delta_forward self [[[1, 2, 3], [0, 5, 0]]] = Inr (Unbatched out)"
    and d: "length out = nat 1 + 1"
    and e: "\<forall>c < nat 1 + 1.
          length (out ! c) = length [[1, 2, 3], [0, 5, 0 :: real]]
        \<and> (\<forall>h < length [[1, 2, 3], [0, 5, 0 :: real]].
              length (out ! c ! h) = 3
            \<and> (\<forall>t < 3.
                  out ! c ! h ! t =
                    sum_list (map (\<lambda>k. filters self ! c ! k
                                        * (replicate (nat 1 * nat 2) 0 @ [[1, 2, 3], [0, 5, 0]] ! h
                                             @ replicate (nat 1 * nat 2) 0) ! (t + k))
                                  [0..<1 + 2 * nat 1 * nat 2])))"
    and g: "out ! 0 = [[1, 2, 3], [0, 5, 0]]"
    by blast
  have b': "snd (padding self) = 2" using b by simp
  have c': "length (filters self) = 2" using c by simp
  have d': "length out = 2" using d by simp
  have one: "(1::nat) < nat 1 + 1" by simp
  have k': "filters self ! 1 = regression_kernel 2 1"
    using k [rule_format, OF one] by simp
  note e' = e [rule_format, OF one]
  have e1: "length (out ! 1) = 2"
    using e' [THEN conjunct1] by simp
  have two: "(1::nat) < length [[1, 2, 3], [0, 5, 0 :: real]]" by simp
  have e2: "length (out ! 1 ! 1) = 3"
    using e' [THEN conjunct2, rule_format, OF two, THEN conjunct1] .
  show ?thesis
    by (rule exI [of _ self], rule exI [of _ out]) (intro conjI a b' c' k' f d' e1 e2 g)
qed

end
